theory Spec2Isabelle
  imports Main "HOL-Library.Sublist"
begin

section \<open>Python strings\<close>

text \<open>
  A Python \<^verbatim>\<open>str\<close> is a sequence of Unicode code points, so a string is a list of
  code points (natural numbers) here; \<open>lit ''abc''\<close> is the string of an ASCII literal.
\<close>

type_synonym str = "nat list"

definition lit :: "string \<Rightarrow> str" where
  "lit cs = map of_char cs"

text \<open>
  The code points that \<^verbatim>\<open>str.split()\<close> and \<^verbatim>\<open>str.strip()\<close> treat as whitespace
  (those for which \<^verbatim>\<open>str.isspace\<close> holds): U+0009..U+000D, U+001C..U+0020, U+0085,
  U+00A0, U+1680, U+2000..U+200A, U+2028, U+2029, U+202F, U+205F and U+3000.
\<close>

definition isspace :: "nat \<Rightarrow> bool" where
  "isspace c \<longleftrightarrow>
     (9 \<le> c \<and> c \<le> 13) \<or> (28 \<le> c \<and> c \<le> 32) \<or> c = 133 \<or> c = 160 \<or> c = 5760 \<or>
     (8192 \<le> c \<and> c \<le> 8202) \<or> c = 8232 \<or> c = 8233 \<or> c = 8239 \<or> c = 8287 \<or> c = 12288"

text \<open>\<^verbatim>\<open>t.replace(old, new)\<close> for one-character \<open>old\<close> and \<open>new\<close>.\<close>

definition replace :: "str \<Rightarrow> nat \<Rightarrow> nat \<Rightarrow> str" where
  "replace t old new = map (\<lambda>c. if c = old then new else c) t"

text \<open>
  \<^verbatim>\<open>t.split()\<close>: the maximal runs of non-whitespace code points of \<open>t\<close>, in order.
  \<open>split_from cur t\<close> scans \<open>t\<close> with the run \<open>cur\<close> collected so far.
\<close>

fun split_from :: "str \<Rightarrow> str \<Rightarrow> str list" where
  "split_from cur [] = (if cur = [] then [] else [cur])"
| "split_from cur (c # cs) =
     (if isspace c then (if cur = [] then split_from [] cs else cur # split_from [] cs)
      else split_from (cur @ [c]) cs)"

definition split_ws :: "str \<Rightarrow> str list" where
  "split_ws t = split_from [] t"

text \<open>\<^verbatim>\<open>sep.join(ts)\<close>.\<close>

fun join :: "str \<Rightarrow> str list \<Rightarrow> str" where
  "join sep [] = []"
| "join sep [t] = t"
| "join sep (t # u # us) = t @ sep @ join sep (u # us)"

text \<open>\<^verbatim>\<open>t.strip()\<close>: leading and trailing whitespace removed.\<close>

definition strip :: "str \<Rightarrow> str" where
  "strip t = rev (dropWhile isspace (rev (dropWhile isspace t)))"

text \<open>
  \<^verbatim>\<open>t.split(sep)[0]\<close> for a non-empty separator: the part of \<open>t\<close> before the leftmost
  occurrence of \<open>sep\<close>, and all of \<open>t\<close> when \<open>sep\<close> does not occur. The list that
  \<^verbatim>\<open>t.split(sep)\<close> returns is never empty, so the index 0 is always in range.
\<close>

fun split_first :: "str \<Rightarrow> str \<Rightarrow> str" where
  "split_first sep [] = []"
| "split_first sep (c # cs) = (if prefix sep (c # cs) then [] else c # split_first sep cs)"

text \<open>\<^verbatim>\<open>t.startswith(p)\<close>.\<close>

definition startswith :: "str \<Rightarrow> str \<Rightarrow> bool" where
  "startswith t p = prefix p t"

section \<open>The tool \<^verbatim>\<open>generate_sql_query\<close>\<close>

text \<open>
  Exceptions are values: \<open>KeyError k\<close> is raised by a dictionary subscript on a missing
  key, \<open>Exception d\<close> stands for any exception raised by a callee, with its description.
\<close>

datatype exn = KeyError str | Exception string

text \<open>A Python dictionary from strings to strings, as the chat messages and the prompts are.\<close>

type_synonym dict = "str \<rightharpoonup> str"

text \<open>
  The model is a callable from the list of messages to a response, of which the code
  reads the field \<^verbatim>\<open>text\<close>; the call may raise.
\<close>

type_synonym model = "dict list \<Rightarrow> exn + str"

text \<open>
  Modelled from the spec: the enumeration \<^verbatim>\<open>ServiceExecStatus\<close> is declared in the
  service module, outside the notebook, which only names its value \<^verbatim>\<open>SUCCESS\<close>; the
  spec gives a result the two statuses SUCCESS and FAILURE.
\<close>

datatype ServiceExecStatus = SUCCESS | FAILURE

text \<open>\<^verbatim>\<open>ServiceResponse(status, content)\<close>.\<close>

record ServiceResponse =
  status :: ServiceExecStatus
  content :: str

text \<open>
  The three lines of \<^verbatim>\<open>get_response_from_prompt\<close> that normalise the completion:
  \<^verbatim>\<open>
  sql = " ".join(sql.replace("\n", " ").split())
  sql = sql.strip().split("/*")[0]
  \<close>
\<close>

definition normalize_completion :: "str \<Rightarrow> str" where
  "normalize_completion sql =
     split_first (lit ''/*'') (strip (join (lit '' '') (split_ws (replace sql 10 32))))"

text \<open>
  The branch of \<^verbatim>\<open>get_response_from_prompt\<close> on the normalised completion; the code
  point 10 is the newline.
  \<^verbatim>\<open>
  if sql.startswith("SELECT"):
      response = sql + "\n"
  elif sql.startswith(" "):
      response = "SELECT" + sql + "\n"
  else:
      response = "SELECT " + sql + "\n"
  \<close>
\<close>

definition respond :: "str \<Rightarrow> str" where
  "respond sql =
     (if startswith sql (lit ''SELECT'') then sql @ [10]
      else if startswith sql (lit '' '') then lit ''SELECT'' @ sql @ [10]
      else lit ''SELECT '' @ sql @ [10])"

definition get_response_from_prompt :: "str \<Rightarrow> model \<Rightarrow> exn + str" where
  "get_response_from_prompt prompt model =
     (case model [[lit ''role'' \<mapsto> lit ''assistant'', lit ''content'' \<mapsto> prompt]] of
        Inl e \<Rightarrow> Inl e
      | Inr sql \<Rightarrow> Inr (respond (normalize_completion sql)))"

text \<open>
  \<^verbatim>\<open>DailSQLPromptGenerator\<close> comes from a module that is not part of the notebook, so
  it is a parameter: the constructor takes the database path and gives the prompt
  helper or raises; the helper's \<^verbatim>\<open>generate_prompt\<close> takes a dictionary and gives a
  dictionary or raises.
\<close>

type_synonym prompt_generator = "str \<Rightarrow> exn + (dict \<Rightarrow> exn + dict)"

definition generate_sql_query ::
  "prompt_generator \<Rightarrow> str \<Rightarrow> str \<Rightarrow> model \<Rightarrow> exn + ServiceResponse" where
  "generate_sql_query DailSQLPromptGenerator question db_path model =
     (case DailSQLPromptGenerator db_path of
        Inl e \<Rightarrow> Inl e
      | Inr generate_prompt \<Rightarrow>
          (case generate_prompt [lit ''content'' \<mapsto> question] of
             Inl e \<Rightarrow> Inl e
           | Inr prepared_prompt \<Rightarrow>
               (case prepared_prompt (lit ''prompt'') of
                  None \<Rightarrow> Inl (KeyError (lit ''prompt''))
                | Some prompt \<Rightarrow>
                    (case get_response_from_prompt prompt model of
                       Inl e \<Rightarrow> Inl e
                     | Inr sql_response \<Rightarrow>
                         Inr \<lparr>status = SUCCESS, content = sql_response\<rparr>))))"

subsection \<open>The functions of the spec's wording\<close>

text \<open>
  The two-way function of the spec's words: the normalised completion followed by a
  newline when it starts with SELECT, and \<open>SELECT\<close>, a space, the normalised completion
  and a newline otherwise.
\<close>

definition respond_two_way :: "str \<Rightarrow> str" where
  "respond_two_way sql =
     (if startswith sql (lit ''SELECT'') then sql @ [10] else lit ''SELECT '' @ sql @ [10])"

definition get_response_two_way :: "str \<Rightarrow> model \<Rightarrow> exn + str" where
  "get_response_two_way prompt model =
     (case model [[lit ''role'' \<mapsto> lit ''assistant'', lit ''content'' \<mapsto> prompt]] of
        Inl e \<Rightarrow> Inl e
      | Inr sql \<Rightarrow> Inr (respond_two_way (normalize_completion sql)))"

text \<open>
  The stripping of the spec's words: the text from its first \<open>SELECT\<close> onward (nothing
  is left of a text without \<open>SELECT\<close>).
\<close>

fun from_first_select :: "str \<Rightarrow> str" where
  "from_first_select [] = []"
| "from_first_select (c # cs) =
     (if prefix (lit ''SELECT'') (c # cs) then c # cs else from_first_select cs)"

text \<open>Whether a call of the tool returned a response of status FAILURE.\<close>

fun returns_failure :: "exn + ServiceResponse \<Rightarrow> bool" where
  "returns_failure (Inl e) = False"
| "returns_failure (Inr r) = (status r = FAILURE)"

subsection \<open>Collaborators for concrete runs\<close>

text \<open>
  A prompt generator that returns the prompt \<open>p\<close> for every question, one whose
  constructor cannot read the schema, one whose \<^verbatim>\<open>generate_prompt\<close> raises, and a
  model that completes every prompt with the text \<open>t\<close>.
\<close>

definition fixed_generator :: "str \<Rightarrow> prompt_generator" where
  "fixed_generator p db_path = Inr (\<lambda>d. Inr [lit ''prompt'' \<mapsto> p])"

definition unreadable_schema :: prompt_generator where
  "unreadable_schema db_path = Inl (Exception ''unreadable schema'')"

definition failing_helper :: prompt_generator where
  "failing_helper db_path = Inr (\<lambda>d. Inl (Exception ''no such table''))"

definition completing :: "str \<Rightarrow> model" where
  "completing t messages = Inr t"

subsection \<open>Auxiliary notions for the proofs\<close>

text \<open>A word is a non-empty string without whitespace, as \<^verbatim>\<open>split()\<close> returns them.\<close>

definition word :: "str \<Rightarrow> bool" where
  "word w \<longleftrightarrow> w \<noteq> [] \<and> list_all (\<lambda>c. \<not> isspace c) w"

text \<open>The value of \<^verbatim>\<open>sql\<close> after the first normalising line.\<close>

definition joined :: "str \<Rightarrow> str" where
  "joined sql = join [32] (split_ws (replace sql 10 32))"

section \<open>The Tool Registry\<close>

text \<open>
  Modelled from the spec: the values of tool arguments. The toolkit
  (\<^verbatim>\<open>ServiceToolkit\<close>) is imported by the notebook and not part of it; the spec makes
  model-supplied arguments primitive values, and the notebook binds a path and a model,
  which is a reference to a capability.
\<close>

datatype val = VStr str | VInt int | VBool bool | VRef str

datatype ty = TStr | TInt | TBool | TRef

fun type_of :: "val \<Rightarrow> ty" where
  "type_of (VStr s) = TStr"
| "type_of (VInt i) = TInt"
| "type_of (VBool b) = TBool"
| "type_of (VRef r) = TRef"

text \<open>
  Modelled from the spec: an entry of a parameter schema (\<^verbatim>\<open>ServiceToolkit\<close> is not in
  the sources): name, type, required, description.
\<close>

record param =
  param_name :: str
  param_type :: ty
  required :: bool
  description :: str

text \<open>
  Modelled from the spec: the error kinds of the registry (sections 4.1 and 7) and of
  the SQL Execution Guard (section 4.2), whose code is not in the sources.
\<close>

datatype error_detail =
  UnknownToolError str
| MissingArgumentError str
| UnexpectedArgumentError str
| TypeMismatchError str
| HandlerFault exn
| MutationNotAllowedError
| ExecutionFault exn

text \<open>
  Modelled from the spec: the ExecutionResult of section 3 (status, payload that is text
  or a structured value, optional error detail); its class is not in the sources.
\<close>

datatype payload = NoPayload | Text str | Rows "val list list"

record ExecutionResult =
  exec_status :: ServiceExecStatus
  payload :: payload
  error_detail :: "error_detail option"

text \<open>
  Modelled from the spec: the two shapes of a result (section 3; its class is not in the
  sources), a success with its payload and a failure with its error detail.
\<close>

definition succeeded :: "payload \<Rightarrow> ExecutionResult" where
  "succeeded p = \<lparr>exec_status = SUCCESS, payload = p, error_detail = None\<rparr>"

definition failed :: "error_detail \<Rightarrow> ExecutionResult" where
  "failed e = \<lparr>exec_status = FAILURE, payload = NoPayload, error_detail = Some e\<rparr>"

text \<open>
  Modelled from the spec: the ToolCallRequest of section 3, parsed from the model's
  output (the parser is not in the sources); the arguments are in the order the model
  wrote them.
\<close>

record ToolCallRequest =
  tool_name :: str
  arguments :: "(str \<times> val) list"

text \<open>
  Modelled from the spec: the ToolDescriptor of section 3 (\<^verbatim>\<open>ServiceToolkit\<close> is not in
  the sources). The handler gets the merged arguments and the state \<open>'w\<close> of the world
  its side effects change, and returns a result or raises.
\<close>

record 'w ToolDescriptor =
  name :: str
  summary :: str
  parameters :: "param list"
  bound_arguments :: "(str \<times> val) list"
  handler :: "(str \<rightharpoonup> val) \<Rightarrow> 'w \<Rightarrow> (exn + ExecutionResult) \<times> 'w"

text \<open>
  Modelled from the spec: \<^verbatim>\<open>register\<close> of section 4.1 (\<^verbatim>\<open>ServiceToolkit.add\<close> is not in
  the sources): a duplicate name is refused, a new descriptor goes last.
\<close>

datatype registry_error = DuplicateToolError str

definition register ::
  "'w ToolDescriptor list \<Rightarrow> 'w ToolDescriptor \<Rightarrow> registry_error + 'w ToolDescriptor list" where
  "register reg d =
     (if name d \<in> set (map name reg) then Inl (DuplicateToolError (name d))
      else Inr (reg @ [d]))"

text \<open>
  Modelled from the spec: the schema summary shown to the model (section 6: name,
  description, parameter list) and \<^verbatim>\<open>describe_all\<close> of section 4.1, in registration
  order; the toolkit is not in the sources. Bound arguments are never exposed, so the
  summary lists the parameters that have no bound value.
\<close>

record schema_summary =
  schema_name :: str
  schema_description :: str
  schema_parameters :: "param list"

definition describe :: "'w ToolDescriptor \<Rightarrow> schema_summary" where
  "describe d =
     \<lparr>schema_name = name d, schema_description = summary d,
      schema_parameters =
        filter (\<lambda>p. map_of (bound_arguments d) (param_name p) = None) (parameters d)\<rparr>"

definition describe_all :: "'w ToolDescriptor list \<Rightarrow> schema_summary list" where
  "describe_all reg = map describe reg"

text \<open>
  Modelled from the spec: step 2 of \<^verbatim>\<open>dispatch\<close> (section 4.1; the toolkit is not in
  the sources), the check of the supplied arguments against the schema the model was
  shown: a missing required parameter, then an unknown parameter name, then a type
  mismatch.
\<close>

definition validate :: "param list \<Rightarrow> (str \<times> val) list \<Rightarrow> error_detail option" where
  "validate ps supplied =
     (case find (\<lambda>p. required p \<and> map_of supplied (param_name p) = None) ps of
        Some p \<Rightarrow> Some (MissingArgumentError (param_name p))
      | None \<Rightarrow>
          (case find (\<lambda>a. fst a \<notin> set (map param_name ps)) supplied of
             Some a \<Rightarrow> Some (UnexpectedArgumentError (fst a))
           | None \<Rightarrow>
               (case find (\<lambda>a. map_of (map (\<lambda>p. (param_name p, param_type p)) ps) (fst a) \<noteq>
                                 Some (type_of (snd a))) supplied of
                  Some a \<Rightarrow> Some (TypeMismatchError (fst a))
                | None \<Rightarrow> None)))"

text \<open>
  Modelled from the spec: step 3 of \<^verbatim>\<open>dispatch\<close> (section 4.1 and the design notes; the
  toolkit is not in the sources): two mappings merged, the bound one taking precedence.
\<close>

definition merge_arguments :: "(str \<times> val) list \<Rightarrow> (str \<times> val) list \<Rightarrow> (str \<rightharpoonup> val)" where
  "merge_arguments bound supplied = map_of supplied ++ map_of bound"

text \<open>
  Modelled from the spec: steps 1 to 3 of \<^verbatim>\<open>dispatch\<close> (section 4.1; the toolkit is not
  in the sources): the descriptor a request resolves to and the arguments its handler is
  to be invoked with, or the error that keeps the handler from being invoked.
\<close>

definition prepare ::
  "'w ToolDescriptor list \<Rightarrow> ToolCallRequest \<Rightarrow>
     error_detail + ('w ToolDescriptor \<times> (str \<rightharpoonup> val))" where
  "prepare reg req =
     (case find (\<lambda>d. name d = tool_name req) reg of
        None \<Rightarrow> Inl (UnknownToolError (tool_name req))
      | Some d \<Rightarrow>
          (case validate (schema_parameters (describe d)) (arguments req) of
             Some err \<Rightarrow> Inl err
           | None \<Rightarrow> Inr (d, merge_arguments (bound_arguments d) (arguments req))))"

text \<open>
  Modelled from the spec: \<^verbatim>\<open>dispatch\<close> of section 4.1 with its step 4 (the toolkit is not
  in the sources): the handler is invoked with the prepared arguments, and a fault it
  raises becomes a result of status FAILURE.
\<close>

definition dispatch ::
  "'w ToolDescriptor list \<Rightarrow> ToolCallRequest \<Rightarrow> 'w \<Rightarrow> ExecutionResult \<times> 'w" where
  "dispatch reg req w =
     (case prepare reg req of
        Inl err \<Rightarrow> (failed err, w)
      | Inr (d, args) \<Rightarrow>
          (case handler d args w of
             (Inl fault, w') \<Rightarrow> (failed (HandlerFault fault), w')
           | (Inr res, w') \<Rightarrow> (res, w')))"

text \<open>
  Modelled from the spec: the two registrations of the notebook,
  \<^verbatim>\<open>service_toolkit.add(generate_sql_query, db_path=db_sqlite_path, model=loaded_model)\<close>
  and \<^verbatim>\<open>service_toolkit.add(query_sqlite, database=db_sqlite_path)\<close>, as descriptors of
  the registry of section 4.1 (the toolkit and \<^verbatim>\<open>query_sqlite\<close> are not in the sources),
  for handlers \<open>h\<close> and \<open>k\<close>. The parameters of \<^verbatim>\<open>query_sqlite\<close> are the ones the
  notebook's recorded calls name; its descriptions are not in the sources and left empty.
\<close>

definition db_sqlite_path :: str where
  "db_sqlite_path = lit ''./database/concert_singer/concert_singer.sqlite''"

definition generate_sql_query_tool ::
  "((str \<rightharpoonup> val) \<Rightarrow> 'w \<Rightarrow> (exn + ExecutionResult) \<times> 'w) \<Rightarrow> 'w ToolDescriptor" where
  "generate_sql_query_tool h =
     \<lparr>name = lit ''generate_sql_query'',
      summary = lit ''Generate the sql query based on the natural language question from user.'',
      parameters =
        [\<lparr>param_name = lit ''question'', param_type = TStr, required = True,
          description = lit ''The question asked by user in natural language.''\<rparr>,
         \<lparr>param_name = lit ''db_path'', param_type = TStr, required = True,
          description = lit ''The path to the .sqlite file.''\<rparr>,
         \<lparr>param_name = lit ''model'', param_type = TRef, required = True,
          description = lit ''The LLM model used to generate the SQL query.''\<rparr>],
      bound_arguments =
        [(lit ''db_path'', VStr db_sqlite_path), (lit ''model'', VRef (lit ''gpt-4''))],
      handler = h\<rparr>"

definition query_sqlite_tool ::
  "((str \<rightharpoonup> val) \<Rightarrow> 'w \<Rightarrow> (exn + ExecutionResult) \<times> 'w) \<Rightarrow> 'w ToolDescriptor" where
  "query_sqlite_tool k =
     \<lparr>name = lit ''query_sqlite'',
      summary = [],
      parameters =
        [\<lparr>param_name = lit ''database'', param_type = TStr, required = True, description = []\<rparr>,
         \<lparr>param_name = lit ''query'', param_type = TStr, required = True, description = []\<rparr>,
         \<lparr>param_name = lit ''allow_change_data'', param_type = TBool, required = False,
          description = []\<rparr>],
      bound_arguments = [(lit ''database'', VStr db_sqlite_path)],
      handler = k\<rparr>"

definition service_toolkit ::
  "((str \<rightharpoonup> val) \<Rightarrow> 'w \<Rightarrow> (exn + ExecutionResult) \<times> 'w) \<Rightarrow>
   ((str \<rightharpoonup> val) \<Rightarrow> 'w \<Rightarrow> (exn + ExecutionResult) \<times> 'w) \<Rightarrow> 'w ToolDescriptor list" where
  "service_toolkit h k = [generate_sql_query_tool h, query_sqlite_tool k]"


text \<open>A handler that does nothing, for concrete runs.\<close>

definition idle_handler :: "(str \<rightharpoonup> val) \<Rightarrow> unit \<Rightarrow> (exn + ExecutionResult) \<times> unit" where
  "idle_handler args w = (Inr (succeeded NoPayload), w)"

section \<open>The SQL Execution Guard\<close>

text \<open>
  Modelled from the spec: the connection of sections 4.2 and 6 (\<^verbatim>\<open>query_sqlite\<close> and the
  database are not in the sources): an engine that runs a statement on the database
  \<open>'db\<close> and returns rows or a fault, and the statements that have reached it, which is
  what a mock that counts calls records.
\<close>

record 'db connection =
  engine :: "str \<Rightarrow> 'db \<Rightarrow> (exn + val list list) \<times> 'db"
  database :: 'db
  received :: "str list"

text \<open>
  Modelled from the spec: the Database Handle of section 3, a connection with the
  policy flag (\<^verbatim>\<open>query_sqlite\<close> is not in the sources).
\<close>

record 'db handle =
  connection :: "'db connection"
  mutation_allowed :: bool

text \<open>
  Modelled from the spec: the classification of section 4.2 (\<^verbatim>\<open>query_sqlite\<close> is not in
  the sources), by the leading keyword, case-insensitive and whitespace-normalised; the
  mutating keywords are the ones the spec names.
\<close>

definition upper :: "nat \<Rightarrow> nat" where
  "upper c = (if 97 \<le> c \<and> c \<le> 122 then c - 32 else c)"

definition leading_keyword :: "str \<Rightarrow> str" where
  "leading_keyword query = (case split_ws query of [] \<Rightarrow> [] | w # ws \<Rightarrow> map upper w)"

definition mutating_keywords :: "str list" where
  "mutating_keywords =
     [lit ''INSERT'', lit ''UPDATE'', lit ''DELETE'', lit ''DROP'', lit ''ALTER'', lit ''CREATE'']"

definition is_mutating :: "str \<Rightarrow> bool" where
  "is_mutating query \<longleftrightarrow> leading_keyword query \<in> set mutating_keywords"

text \<open>
  Modelled from the spec: \<^verbatim>\<open>execute(handle, query)\<close> of section 4.2 (\<^verbatim>\<open>query_sqlite\<close> is
  not in the sources): a mutating statement under a read-only policy is refused before
  anything reaches the connection; otherwise the statement goes to the connection, whose
  rows or fault become the result.
\<close>

definition execute :: "'db handle \<Rightarrow> str \<Rightarrow> ExecutionResult \<times> 'db handle" where
  "execute h query =
     (if is_mutating query \<and> \<not> mutation_allowed h then (failed MutationNotAllowedError, h)
      else
        (case engine (connection h) query (database (connection h)) of
           (r, db') \<Rightarrow>
             ((case r of Inl fault \<Rightarrow> failed (ExecutionFault fault)
               | Inr rows \<Rightarrow> succeeded (Rows rows)),
              h\<lparr>connection :=
                  (connection h)\<lparr>database := db',
                    received := received (connection h) @ [query]\<rparr>\<rparr>)))"

text \<open>
  A fixture for concrete runs: a database that is the list of its table names, with an
  engine that drops the table \<open>singer\<close> on any statement, and a read-only handle on it.
\<close>

definition dropping_engine :: "str \<Rightarrow> str list \<Rightarrow> (exn + val list list) \<times> str list" where
  "dropping_engine query tables = (Inr [], removeAll (lit ''singer'') tables)"

definition fixture :: "str list handle" where
  "fixture =
     \<lparr>connection =
        \<lparr>engine = dropping_engine, database = [lit ''stadium'', lit ''singer''], received = []\<rparr>,
      mutation_allowed = False\<rparr>"

section \<open>The Reasoning-Action Loop\<close>

text \<open>
  Modelled from the spec: the Decision of section 3, the parsed output of one reasoning
  phase (the agent \<^verbatim>\<open>ReActAgent\<close> and its parser are not in the sources).
\<close>

record Decision =
  thought :: str
  speak :: str
  calls :: "ToolCallRequest list"

text \<open>
  Modelled from the spec: the Message of section 3 (the agent is not in the sources). A
  content is text, a structured decision, the observation of a tool's result labelled
  with the tool's name and index, or the corrective observation after a malformed
  output, which carries the offending text. The timestamp is wall-clock time and left
  out.
\<close>

datatype role = User | Assistant | System

datatype msg_content =
  Plain str
| Structured Decision
| Observation str nat ExecutionResult
| Corrective str

record Message =
  msg_role :: role
  msg_name :: str
  msg_content :: msg_content

text \<open>
  Modelled from the spec: what a REASONING phase assembles for the model (section 4.5):
  the system prompt, the registry's schema summaries and the whole conversation; the
  agent is not in the sources.
\<close>

record prompt =
  system_prompt :: str
  tools :: "schema_summary list"
  history :: "Message list"

text \<open>
  Modelled from the spec: the configuration of an agent (the agent is not in the
  sources): its name and system prompt, the model as an opaque function from the prompt
  to a completion (section 6), the parser of section 4.4 from a raw text to a Decision
  or to the malformed text, the registry, and the two budgets.
\<close>

record 'w agent =
  agent_name :: str
  sys_prompt :: str
  invoke :: "prompt \<Rightarrow> str"
  parse :: "str \<Rightarrow> str + Decision"
  registry :: "'w ToolDescriptor list"
  max_iterations :: nat
  max_parse_retries :: nat

text \<open>
  Modelled from the spec: the states of the loop (section 4.5) and the reasons a turn
  fails (section 7); the agent is not in the sources.
\<close>

datatype phase = REASONING | ACTION | TERMINATED | FAILED

datatype budget = Iterations | ParseRetries

datatype turn_failure = BudgetExhaustedError budget

text \<open>
  Modelled from the spec: the state of one turn (the agent is not in the sources): the
  phase, the conversation, the calls of the decision being acted on, the two counters
  that are passed through each transition, the final assistant message or the failure,
  and the world the tools act on. The field \<open>trace\<close> records each phase as it is
  performed.
\<close>

record 'w turn =
  phase :: phase
  conversation :: "Message list"
  pending :: "ToolCallRequest list"
  iterations :: nat
  parse_failures :: nat
  final_message :: "str option"
  failure :: "turn_failure option"
  world :: 'w
  trace :: "phase list"

text \<open>
  Modelled from the spec: the prompt of a REASONING phase (section 4.5; the agent is not
  in the sources), from the system prompt, the schema summaries and the conversation.
\<close>

definition build_prompt :: "'w agent \<Rightarrow> Message list \<Rightarrow> prompt" where
  "build_prompt a conv =
     \<lparr>system_prompt = sys_prompt a, tools = describe_all (registry a), history = conv\<rparr>"

text \<open>
  Modelled from the spec: the ACTION phase of section 4.5 (the agent is not in the
  sources): the calls are dispatched one after the other in request order, each on the
  world the one before left, and each result becomes a system observation labelled with
  the tool's name and the call's index.
\<close>

fun act ::
  "'w ToolDescriptor list \<Rightarrow> nat \<Rightarrow> ToolCallRequest list \<Rightarrow> 'w \<Rightarrow> Message list \<times> 'w" where
  "act reg i [] w = ([], w)"
| "act reg i (c # cs) w =
     (case dispatch reg c w of
        (res, w') \<Rightarrow>
          (case act reg (Suc i) cs w' of
             (ms, w'') \<Rightarrow>
               (\<lparr>msg_role = System, msg_name = tool_name c,
                  msg_content = Observation (tool_name c) i res\<rparr> # ms, w'')))"

text \<open>
  Modelled from the spec: one transition of the state machine of section 4.5 (the agent
  is not in the sources). A REASONING phase asks the model and parses its text: a
  malformed text is counted, and either the budget of retries is used up and the turn
  fails, or a corrective observation is appended and REASONING is entered again; a
  decision without calls ends the turn with its \<open>speak\<close> as the final assistant message;
  a decision with calls starts the next iteration, unless \<open>max_iterations\<close> of them have
  been started already, in which case the turn fails with the budget exhausted. An
  ACTION phase performs the pending calls and goes back to REASONING. An iteration is a
  REASONING phase together with the ACTION phase it leads to; the counter \<open>iterations\<close>
  counts the iterations started.
\<close>

definition step :: "'w agent \<Rightarrow> 'w turn \<Rightarrow> 'w turn" where
  "step a t =
     (case phase t of
        REASONING \<Rightarrow>
          (case parse a (invoke a (build_prompt a (conversation t))) of
             Inl raw \<Rightarrow>
               (if max_parse_retries a \<le> Suc (parse_failures t)
                then t\<lparr>phase := FAILED, parse_failures := Suc (parse_failures t),
                       failure := Some (BudgetExhaustedError ParseRetries),
                       trace := trace t @ [REASONING]\<rparr>
                else t\<lparr>conversation := conversation t @
                         [\<lparr>msg_role = System, msg_name = lit ''system'',
                           msg_content = Corrective raw\<rparr>],
                       parse_failures := Suc (parse_failures t),
                       trace := trace t @ [REASONING]\<rparr>)
           | Inr d \<Rightarrow>
               (if calls d = []
                then t\<lparr>phase := TERMINATED,
                       conversation := conversation t @
                         [\<lparr>msg_role = Assistant, msg_name = agent_name a,
                           msg_content = Plain (speak d)\<rparr>],
                       final_message := Some (speak d),
                       trace := trace t @ [REASONING]\<rparr>
                else if iterations t < max_iterations a
                then t\<lparr>phase := ACTION,
                       conversation := conversation t @
                         [\<lparr>msg_role = Assistant, msg_name = agent_name a,
                           msg_content = Structured d\<rparr>],
                       pending := calls d,
                       iterations := Suc (iterations t),
                       trace := trace t @ [REASONING]\<rparr>
                else t\<lparr>phase := FAILED,
                       failure := Some (BudgetExhaustedError Iterations),
                       trace := trace t @ [REASONING]\<rparr>))
      | ACTION \<Rightarrow>
          (case act (registry a) 0 (pending t) (world t) of
             (observations, w') \<Rightarrow>
               t\<lparr>phase := REASONING,
                 conversation := conversation t @ observations,
                 pending := [],
                 world := w',
                 trace := trace t @ [ACTION]\<rparr>)
      | TERMINATED \<Rightarrow> t
      | FAILED \<Rightarrow> t)"

text \<open>
  The measure of what a turn may still do: the iterations left, then the phase, then
  the parse retries left.
\<close>

fun phase_rank :: "phase \<Rightarrow> nat" where
  "phase_rank ACTION = 2"
| "phase_rank REASONING = 1"
| "phase_rank TERMINATED = 0"
| "phase_rank FAILED = 0"

definition remaining :: "'w agent \<times> 'w turn \<Rightarrow> nat \<times> nat \<times> nat" where
  "remaining = (\<lambda>(a, t).
     (max_iterations a - iterations t, phase_rank (phase t),
      max_parse_retries a - parse_failures t))"

text \<open>
  Modelled from the spec: the loop of section 4.5 (the agent is not in the sources):
  transitions are taken until a terminal state is reached.
\<close>

function run :: "'w agent \<Rightarrow> 'w turn \<Rightarrow> 'w turn" where
  "run a t = (if phase t = TERMINATED \<or> phase t = FAILED then t else run a (step a t))"
  by pat_completeness auto
termination
proof (relation "inv_image (less_than <*lex*> less_than <*lex*> less_than) remaining")
  show "wf (inv_image (less_than <*lex*> less_than <*lex*> less_than) remaining)"
    by (intro wf_inv_image wf_lex_prod wf_less_than)
next
  fix a :: "'w agent" and t :: "'w turn"
  assume "\<not> (phase t = TERMINATED \<or> phase t = FAILED)"
  then show "((a, step a t), (a, t)) \<in>
      inv_image (less_than <*lex*> less_than <*lex*> less_than) remaining"
    by (cases "phase t")
      (auto simp: step_def remaining_def split: sum.splits prod.splits)
qed

declare run.simps [simp del]

text \<open>
  Modelled from the spec: the start of a turn (section 4.5; the agent is not in the
  sources): the initial state is REASONING on the conversation that ends with the user's
  message, with both counters at zero.
\<close>

definition start :: "Message list \<Rightarrow> 'w \<Rightarrow> 'w turn" where
  "start conv w =
     \<lparr>phase = REASONING, conversation = conv, pending = [], iterations = 0,
      parse_failures = 0, final_message = None, failure = None, world = w, trace = []\<rparr>"

text \<open>
  Agents for concrete runs, on an empty registry: one whose model answers at once, and
  one whose every decision asks for a tool.
\<close>

definition answering :: "nat \<Rightarrow> unit agent" where
  "answering n =
     \<lparr>agent_name = lit ''assistant'', sys_prompt = [], invoke = (\<lambda>p. lit ''6''),
      parse = (\<lambda>raw. Inr \<lparr>thought = [], speak = raw, calls = []\<rparr>),
      registry = [], max_iterations = n, max_parse_retries = 3\<rparr>"

definition insisting :: "nat \<Rightarrow> unit agent" where
  "insisting n =
     \<lparr>agent_name = lit ''assistant'', sys_prompt = [], invoke = (\<lambda>p. []),
      parse = (\<lambda>raw. Inr \<lparr>thought = [], speak = [],
        calls = [\<lparr>tool_name = lit ''query_sqlite'', arguments = []\<rparr>]\<rparr>),
      registry = [], max_iterations = n, max_parse_retries = 3\<rparr>"

definition user_question :: Message where
  "user_question =
     \<lparr>msg_role = User, msg_name = lit ''user'',
      msg_content = Plain (lit ''How many singers do we have?'')\<rparr>"


text \<open>
  What holds of every state of a turn that was started by \<open>start\<close>: the counter of
  iterations counts the ACTION phases performed or pending and is within its budget, the
  phases performed are bounded by the two counters, and a failed turn says which budget
  was exhausted.
\<close>

definition within_budget :: "'w agent \<Rightarrow> 'w turn \<Rightarrow> bool" where
  "within_budget a t \<longleftrightarrow>
     iterations t \<le> max_iterations a \<and>
     (case phase t of
        REASONING \<Rightarrow>
          count_list (trace t) ACTION = iterations t \<and>
          length (trace t) \<le> 2 * iterations t + parse_failures t \<and>
          parse_failures t < max (max_parse_retries a) 1
      | ACTION \<Rightarrow>
          Suc (count_list (trace t) ACTION) = iterations t \<and>
          Suc (length (trace t)) \<le> 2 * iterations t + parse_failures t \<and>
          parse_failures t < max (max_parse_retries a) 1
      | TERMINATED \<Rightarrow>
          count_list (trace t) ACTION = iterations t \<and>
          length (trace t) \<le> 2 * iterations t + max (max_parse_retries a) 1 \<and>
          final_message t \<noteq> None
      | FAILED \<Rightarrow>
          count_list (trace t) ACTION = iterations t \<and>
          length (trace t) \<le> 2 * iterations t + max (max_parse_retries a) 1 \<and>
          (failure t = Some (BudgetExhaustedError Iterations) \<or>
           failure t = Some (BudgetExhaustedError ParseRetries)))"


section \<open>Properties of the string operations\<close>

lemma isspace_32: "isspace 32"
  by (simp add: isspace_def)

lemma lit_space: "lit '' '' = [32]"
  by (simp add: lit_def)

lemma lit_comment: "lit ''/*'' = [47, 42]"
  by (simp add: lit_def)

lemma lit_SELECT: "lit ''SELECT'' = [83, 69, 76, 69, 67, 84]"
  by (simp add: lit_def)

lemma lit_SELECT_space: "lit ''SELECT '' = [83, 69, 76, 69, 67, 84, 32]"
  by (simp add: lit_def)

lemma SELECT_space: "c \<in> set (lit ''SELECT '') \<Longrightarrow> isspace c \<Longrightarrow> c = 32"
  by (auto simp: lit_SELECT_space isspace_def)

lemma word_hd: "word w \<Longrightarrow> \<not> isspace (hd w)"
  by (cases w) (auto simp: word_def)

lemma word_last: "word w \<Longrightarrow> \<not> isspace (last w)"
  by (auto simp: word_def list_all_iff)

text \<open>\<^verbatim>\<open>split()\<close> returns words only.\<close>

lemma split_from_words:
  "list_all (\<lambda>c. \<not> isspace c) cur \<Longrightarrow> list_all word (split_from cur t)"
  by (induction t arbitrary: cur) (auto simp: word_def)

lemma split_ws_words: "list_all word (split_ws t)"
  by (simp add: split_ws_def split_from_words)

text \<open>Words joined by single spaces begin and end with a word's code point.\<close>

lemma join_words_hd:
  "list_all word ws \<Longrightarrow> ws \<noteq> [] \<Longrightarrow> join [32] ws \<noteq> [] \<and> \<not> isspace (hd (join [32] ws))"
proof (cases ws)
  case Nil
  assume "ws \<noteq> []"
  with Nil show ?thesis by simp
next
  case (Cons w us)
  assume "list_all word ws"
  with Cons have w: "word w" by simp
  then have "w \<noteq> []" by (simp add: word_def)
  with w show ?thesis using Cons by (cases us) (auto simp: word_hd)
qed

lemma join_words_last:
  "list_all word ws \<Longrightarrow> ws \<noteq> [] \<Longrightarrow> \<not> isspace (last (join [32] ws))"
proof (induction "[32::nat]" ws rule: join.induct)
  case 1
  then show ?case by simp
next
  case (2 t)
  then show ?case by (simp add: word_last)
next
  case (3 t u us)
  then have "join [32] (u # us) \<noteq> []" using join_words_hd [of "u # us"] by simp
  with 3 show ?case by simp
qed

lemma join_words_space:
  "list_all word ws \<Longrightarrow> c \<in> set (join [32] ws) \<Longrightarrow> isspace c \<Longrightarrow> c = 32"
  by (induction "[32::nat]" ws rule: join.induct) (auto simp: word_def list_all_iff)

lemma nospace_no_double:
  "list_all (\<lambda>c. \<not> isspace c) w \<Longrightarrow> \<not> sublist [32, 32] w"
  by (induction w) (auto simp: sublist_Cons_right isspace_32)

lemma word_space_sublist:
  "list_all (\<lambda>c. \<not> isspace c) w \<Longrightarrow>
     sublist [32, 32] (w @ 32 # t) \<longleftrightarrow> prefix [32] t \<or> sublist [32, 32] t"
  by (induction w) (auto simp: sublist_Cons_right isspace_32)

lemma join_words_no_double:
  "list_all word ws \<Longrightarrow> \<not> sublist [32, 32] (join [32] ws)"
proof (induction "[32::nat]" ws rule: join.induct)
  case 1
  then show ?case by simp
next
  case (2 t)
  then show ?case by (simp add: word_def nospace_no_double)
next
  case (3 t u us)
  then have t: "list_all (\<lambda>c. \<not> isspace c) t" by (simp add: word_def)
  from 3 have h: "join [32] (u # us) \<noteq> [] \<and> \<not> isspace (hd (join [32] (u # us)))"
    using join_words_hd [of "u # us"] by simp
  then have "\<not> prefix [32] (join [32] (u # us))"
    by (cases "join [32] (u # us)") (auto simp: isspace_32)
  moreover from 3 have "\<not> sublist [32, 32] (join [32] (u # us))" by simp
  ultimately show ?case using word_space_sublist [OF t] by simp
qed

text \<open>\<^verbatim>\<open>strip()\<close> leaves a string alone that neither begins nor ends with whitespace.\<close>

lemma dropWhile_id: "t = [] \<or> \<not> P (hd t) \<Longrightarrow> dropWhile P t = t"
  by (cases t) auto

lemma strip_id:
  assumes "t = [] \<or> (\<not> isspace (hd t) \<and> \<not> isspace (last t))"
  shows "strip t = t"
proof (cases "t = []")
  case True
  then show ?thesis by (simp add: strip_def)
next
  case False
  with assms have a: "\<not> isspace (hd t)" and b: "\<not> isspace (last t)" by auto
  from a have 1: "dropWhile isspace t = t" by (simp add: dropWhile_id)
  from False b have "\<not> isspace (hd (rev t))" by (simp add: hd_rev)
  then have "dropWhile isspace (rev t) = rev t" by (simp add: dropWhile_id)
  with 1 show ?thesis by (simp add: strip_def)
qed

text \<open>The first piece of \<^verbatim>\<open>split(sep)\<close> is a prefix in which \<open>sep\<close> does not occur.\<close>

lemma split_first_prefix: "prefix (split_first sep t) t"
  by (induction t) auto

lemma split_first_no_sep: "sep \<noteq> [] \<Longrightarrow> \<not> sublist sep (split_first sep t)"
proof (induction t)
  case Nil
  then show ?case by simp
next
  case (Cons c cs)
  show ?case
  proof (cases "prefix sep (c # cs)")
    case True
    with Cons.prems show ?thesis by simp
  next
    case False
    have "prefix (c # split_first sep cs) (c # cs)" by (simp add: split_first_prefix)
    with False have "\<not> prefix sep (c # split_first sep cs)"
      using prefix_order.trans by blast
    with False Cons show ?thesis by (simp add: sublist_Cons_right)
  qed
qed

section \<open>Properties of the normalised completion\<close>

lemma joined_ends: "joined s = [] \<or> (\<not> isspace (hd (joined s)) \<and> \<not> isspace (last (joined s)))"
proof (cases "split_ws (replace s 10 32) = []")
  case True
  then show ?thesis by (simp add: joined_def)
next
  case False
  then show ?thesis
    unfolding joined_def using join_words_hd join_words_last split_ws_words by blast
qed

lemma joined_space: "c \<in> set (joined s) \<Longrightarrow> isspace c \<Longrightarrow> c = 32"
  unfolding joined_def using join_words_space split_ws_words by blast

lemma joined_no_double: "\<not> sublist [32, 32] (joined s)"
  unfolding joined_def using join_words_no_double split_ws_words by blast

text \<open>After the join, \<^verbatim>\<open>strip()\<close> changes nothing.\<close>

lemma normalize_joined: "normalize_completion s = split_first [47, 42] (joined s)"
  using strip_id [OF joined_ends [of s]]
  by (simp add: normalize_completion_def joined_def lit_space lit_comment)

lemma normalize_prefix: "prefix (normalize_completion s) (joined s)"
  by (simp add: normalize_joined split_first_prefix)

lemma normalize_space: "c \<in> set (normalize_completion s) \<Longrightarrow> isspace c \<Longrightarrow> c = 32"
  using normalize_prefix [of s] joined_space [of c s] set_mono_prefix by blast

lemma normalize_no_newline: "10 \<notin> set (normalize_completion s)"
proof
  assume "10 \<in> set (normalize_completion s)"
  moreover have "isspace 10" by (simp add: isspace_def)
  ultimately have "(10::nat) = 32" by (rule normalize_space)
  then show False by simp
qed

lemma normalize_no_double: "\<not> sublist [32, 32] (normalize_completion s)"
proof
  assume "sublist [32, 32] (normalize_completion s)"
  moreover have "sublist (normalize_completion s) (joined s)"
    using normalize_prefix by (rule prefix_imp_sublist)
  ultimately have "sublist [32, 32] (joined s)" by (rule sublist_order.order_trans)
  then show False by (simp add: joined_no_double)
qed

lemma normalize_no_comment: "\<not> sublist [47, 42] (normalize_completion s)"
  by (simp add: normalize_joined split_first_no_sep)

lemma normalize_hd: "normalize_completion s = [] \<or> \<not> isspace (hd (normalize_completion s))"
proof (cases "normalize_completion s")
  case Nil
  then show ?thesis by simp
next
  case (Cons c cs)
  with normalize_prefix [of s] obtain zs where j: "joined s = c # zs"
    by (auto simp: prefix_def)
  with joined_ends [of s] have "\<not> isspace c" by simp
  with Cons show ?thesis by simp
qed

lemma normalize_not_space_first: "\<not> startswith (normalize_completion s) (lit '' '')"
  using normalize_hd [of s]
  by (cases "normalize_completion s") (auto simp: startswith_def lit_space isspace_32)

lemma respond_cases:
  "respond (normalize_completion s) = respond_two_way (normalize_completion s)"
  by (simp add: respond_def respond_two_way_def normalize_not_space_first)

lemma respond_select: "startswith (respond (normalize_completion s)) (lit ''SELECT'')"
  by (simp add: respond_cases respond_two_way_def startswith_def lit_SELECT lit_SELECT_space)

lemma respond_body:
  "\<exists>body. respond (normalize_completion s) = body @ [10] \<and> 10 \<notin> set body \<and>
     (\<forall>c\<in>set body. isspace c \<longrightarrow> c = 32) \<and> \<not> sublist [32, 32] body \<and>
     \<not> sublist [47, 42] (body @ [10])"
proof (cases "startswith (normalize_completion s) (lit ''SELECT'')")
  case True
  let ?b = "normalize_completion s"
  have "\<not> sublist [47, 42] (?b @ [10])"
    using snoc_sublist_snoc [of "[47]" 42 ?b 10] normalize_no_comment [of s] by simp
  with True show ?thesis
    using normalize_no_newline normalize_space normalize_no_double
    by (auto simp: respond_cases respond_two_way_def)
next
  case False
  let ?n = "normalize_completion s"
  let ?b = "lit ''SELECT '' @ ?n"
  have n: "\<not> prefix [32] ?n"
    using normalize_not_space_first [of s] by (simp add: startswith_def lit_space)
  have 1: "10 \<notin> set ?b" by (simp add: lit_SELECT_space normalize_no_newline)
  have 2: "\<forall>c\<in>set ?b. isspace c \<longrightarrow> c = 32"
    using normalize_space [of _ s] SELECT_space by auto
  have 3: "\<not> sublist [32, 32] ?b"
    using n normalize_no_double [of s] by (simp add: lit_SELECT_space sublist_Cons_right)
  have "\<not> sublist [47, 42] ?b"
    using normalize_no_comment [of s] by (simp add: lit_SELECT_space sublist_Cons_right)
  then have 4: "\<not> sublist [47, 42] (?b @ [10])"
    using snoc_sublist_snoc [of "[47]" 42 ?b 10] by simp
  from False have "respond ?n = ?b @ [10]"
    by (simp add: respond_cases respond_two_way_def)
  with 1 2 3 4 show ?thesis by blast
qed

section \<open>Runs of the tool\<close>

lemma generate_sql_query_normal:
  assumes "G db_path = Inr gp" and "gp [lit ''content'' \<mapsto> question] = Inr pp"
    and "pp (lit ''prompt'') = Some p"
    and "m [[lit ''role'' \<mapsto> lit ''assistant'', lit ''content'' \<mapsto> p]] = Inr c"
  shows "generate_sql_query G question db_path m =
    Inr \<lparr>status = SUCCESS, content = respond (normalize_completion c)\<rparr>"
  using assms by (simp add: generate_sql_query_def get_response_from_prompt_def)

lemma generate_sql_query_Inr:
  assumes "generate_sql_query G question db_path m = Inr r"
  shows "\<exists>c. r = \<lparr>status = SUCCESS, content = respond (normalize_completion c)\<rparr>"
  using assms
  by (auto simp: generate_sql_query_def get_response_from_prompt_def
      split: sum.splits option.splits)

lemma fixed_generator_run:
  "generate_sql_query (fixed_generator p) question db_path (completing c) =
   Inr \<lparr>status = SUCCESS, content = respond (normalize_completion c)\<rparr>"
  by (simp add: generate_sql_query_def get_response_from_prompt_def fixed_generator_def
      completing_def)

lemma singers_eval:
  "respond (normalize_completion (lit ''SELECT COUNT(DISTINCT Singer_ID) FROM singer;'')) =
   lit ''SELECT COUNT(DISTINCT Singer_ID) FROM singer;'' @ [10]"
  by (simp add: respond_def normalize_completion_def lit_def split_ws_def replace_def
      isspace_def strip_def startswith_def)

lemma noisy_eval:
  "respond (normalize_completion (lit ''Sure: SELECT 1'')) = lit ''SELECT Sure: SELECT 1'' @ [10]"
  by (simp add: respond_def normalize_completion_def lit_def split_ws_def replace_def
      isspace_def strip_def startswith_def)

lemma empty_eval: "respond (normalize_completion []) = lit ''SELECT '' @ [10]"
  by (simp add: respond_def normalize_completion_def lit_def split_ws_def replace_def
      strip_def startswith_def)

lemma comment_eval:
  "respond (normalize_completion (lit ''count(*)  FROM singer /* all */'')) =
   lit ''SELECT count(*) FROM singer '' @ [10]"
  by (simp add: respond_def normalize_completion_def lit_def split_ws_def replace_def
      isspace_def strip_def startswith_def)

section \<open>The claims about \<^verbatim>\<open>generate_sql_query\<close>\<close>

text \<open>
  C1, as the spec states it, fails: the code strips nothing before a SELECT keyword.
  For the completion \<open>Sure: SELECT 1\<close> the text from the first SELECT onward is
  \<open>SELECT 1\<close>, and the tool returns \<open>SELECT Sure: SELECT 1\<close> with a newline: the words
  before the keyword are kept and a second SELECT is put in front, so the returned text
  is not even a part of the completion's end.
\<close>

theorem select_stripping_counterexample:
  "generate_sql_query (fixed_generator (lit ''p'')) (lit ''q'') (lit ''db'')
     (completing (lit ''Sure: SELECT 1'')) =
   Inr \<lparr>status = SUCCESS, content = lit ''SELECT Sure: SELECT 1'' @ [10]\<rparr> \<and>
   from_first_select (lit ''Sure: SELECT 1'') = lit ''SELECT 1'' \<and>
   lit ''SELECT Sure: SELECT 1'' @ [10] \<noteq> from_first_select (lit ''Sure: SELECT 1'') @ [10] \<and>
   lit ''SELECT Sure: SELECT 1'' @ [10] \<noteq> from_first_select (lit ''Sure: SELECT 1'') \<and>
   \<not> suffix (lit ''SELECT Sure: SELECT 1'') (lit ''Sure: SELECT 1'')"
proof -
  have "\<not> suffix (lit ''SELECT Sure: SELECT 1'') (lit ''Sure: SELECT 1'')"
    using suffix_length_le [of "lit ''SELECT Sure: SELECT 1''" "lit ''Sure: SELECT 1''"]
    by (auto simp: lit_def)
  moreover have "from_first_select (lit ''Sure: SELECT 1'') = lit ''SELECT 1''"
    by (simp add: lit_def)
  moreover have "lit ''SELECT Sure: SELECT 1'' @ [10] \<noteq> lit ''SELECT 1'' @ [10]"
    and "lit ''SELECT Sure: SELECT 1'' @ [10] \<noteq> lit ''SELECT 1''"
    by (simp_all add: lit_def)
  ultimately show ?thesis by (simp add: fixed_generator_run noisy_eval)
qed

text \<open>
  C1, amended: for every completion that the model returns, the SQL string is the
  normalised completion (newlines and runs of whitespace turned into single spaces, cut
  at the first comment opener) kept whole and followed by a newline; when the normalised
  completion does not begin with SELECT, the word SELECT and a space are put in front of
  it instead of anything being stripped. So the returned string always begins with
  SELECT.
\<close>

theorem select_prepended:
  assumes "model [[lit ''role'' \<mapsto> lit ''assistant'', lit ''content'' \<mapsto> prompt]] = Inr completion"
  shows "get_response_from_prompt prompt model =
      Inr (if startswith (normalize_completion completion) (lit ''SELECT'')
           then normalize_completion completion @ [10]
           else lit ''SELECT '' @ normalize_completion completion @ [10]) \<and>
    startswith (respond (normalize_completion completion)) (lit ''SELECT'')"
  using assms respond_select [of completion]
  by (simp add: get_response_from_prompt_def respond_cases respond_two_way_def)

theorem select_prepended_witness:
  "get_response_from_prompt (lit ''p'') (completing (lit ''count(*)  FROM singer /* all */'')) =
   Inr (lit ''SELECT count(*) FROM singer '' @ [10])"
proof -
  have h: "completing (lit ''count(*)  FROM singer /* all */'')
      [[lit ''role'' \<mapsto> lit ''assistant'', lit ''content'' \<mapsto> lit ''p'']] =
    Inr (lit ''count(*)  FROM singer /* all */'')"
    by (simp add: completing_def)
  show ?thesis
    using h select_prepended [of "completing (lit ''count(*)  FROM singer /* all */'')"
        "lit ''p''" "lit ''count(*)  FROM singer /* all */''"] comment_eval
    by (simp add: get_response_from_prompt_def completing_def)
qed

text \<open>
  C2: when the prompt builder returns its prompt and the model completes it with the bare
  query \<open>SELECT COUNT(DISTINCT Singer_ID) FROM singer;\<close>, the tool returns SUCCESS with
  exactly that query followed by one newline.
\<close>

theorem singers_query:
  assumes "G db_path = Inr gp" and "gp [lit ''content'' \<mapsto> question] = Inr pp"
    and "pp (lit ''prompt'') = Some p"
    and "m [[lit ''role'' \<mapsto> lit ''assistant'', lit ''content'' \<mapsto> p]] =
      Inr (lit ''SELECT COUNT(DISTINCT Singer_ID) FROM singer;'')"
  shows "generate_sql_query G question db_path m =
    Inr \<lparr>status = SUCCESS,
      content = lit ''SELECT COUNT(DISTINCT Singer_ID) FROM singer;'' @ [10]\<rparr>"
  using assms generate_sql_query_normal [of G db_path gp question pp p m]
  by (simp add: singers_eval)

theorem singers_query_witness:
  "generate_sql_query (fixed_generator (lit ''/* Answer the following */ SELECT''))
     (lit ''How many singers do we have?'')
     (lit ''./database/concert_singer/concert_singer.sqlite'')
     (completing (lit ''SELECT COUNT(DISTINCT Singer_ID) FROM singer;'')) =
   Inr \<lparr>status = SUCCESS,
     content = lit ''SELECT COUNT(DISTINCT Singer_ID) FROM singer;'' @ [10]\<rparr>"
  by (rule singers_query [where gp = "\<lambda>d. Inr [lit ''prompt'' \<mapsto> lit ''/* Answer the following */ SELECT'']"
        and pp = "[lit ''prompt'' \<mapsto> lit ''/* Answer the following */ SELECT'']"
        and p = "lit ''/* Answer the following */ SELECT''"])
    (simp_all add: fixed_generator_def completing_def)

text \<open>
  C3, as the spec states it, fails: the tool has no handler for a fault of the prompt
  builder. With a builder that cannot read the schema the call of the tool raises the
  builder's exception and returns no response, so none of status FAILURE.
\<close>

theorem builder_failure_counterexample:
  "generate_sql_query unreadable_schema (lit ''How many singers do we have?'') (lit ''db'')
     (completing (lit ''SELECT 1'')) = Inl (Exception ''unreadable schema'') \<and>
   \<not> returns_failure (generate_sql_query unreadable_schema
     (lit ''How many singers do we have?'') (lit ''db'') (completing (lit ''SELECT 1'')))"
  by (simp add: generate_sql_query_def unreadable_schema_def)

text \<open>
  C3, amended: every failure of the prompt builder inside the tool, in its constructor
  or in its \<^verbatim>\<open>generate_prompt\<close>, leaves the tool as the builder's exception: the tool
  returns no response then, and it is for the caller of the tool to turn the exception
  into a result of status FAILURE.
\<close>

theorem builder_failure_propagates:
  assumes "G db_path = Inl e \<or>
    (\<exists>gp. G db_path = Inr gp \<and> gp [lit ''content'' \<mapsto> question] = Inl e)"
  shows "generate_sql_query G question db_path m = Inl e \<and>
    \<not> returns_failure (generate_sql_query G question db_path m)"
  using assms by (auto simp: generate_sql_query_def)

theorem builder_failure_propagates_witness:
  "generate_sql_query failing_helper (lit ''q'') (lit ''db'') (completing []) =
   Inl (Exception ''no such table'')"
proof -
  have "failing_helper (lit ''db'') = Inl (Exception ''no such table'') \<or>
    (\<exists>gp. failing_helper (lit ''db'') = Inr gp \<and>
       gp [lit ''content'' \<mapsto> lit ''q''] = Inl (Exception ''no such table''))"
    by (simp add: failing_helper_def)
  then show ?thesis by (rule builder_failure_propagates [THEN conjunct1])
qed

text \<open>
  C8: the payload of every response of the tool is a body followed by one newline, where
  the body holds no newline, no whitespace but the space and no two spaces in a row, and
  the payload holds no comment opener \<open>/*\<close>.
\<close>

theorem payload_shape:
  assumes "generate_sql_query G question db_path m = Inr r"
  shows "\<exists>body. content r = body @ [10] \<and> 10 \<notin> set body \<and>
     (\<forall>c\<in>set body. isspace c \<longrightarrow> c = 32) \<and> \<not> sublist [32, 32] body \<and>
     \<not> sublist (lit ''/*'') (content r)"
proof -
  from assms obtain c where "r = \<lparr>status = SUCCESS, content = respond (normalize_completion c)\<rparr>"
    using generate_sql_query_Inr by blast
  then show ?thesis using respond_body [of c] by (auto simp: lit_comment)
qed

theorem payload_shape_witness:
  "\<exists>body. lit ''SELECT count(*) FROM singer '' @ [10] = body @ [10] \<and> 10 \<notin> set body \<and>
     \<not> sublist [32, 32] body \<and>
     \<not> sublist (lit ''/*'') (lit ''SELECT count(*) FROM singer '' @ [10])"
proof -
  have "generate_sql_query (fixed_generator (lit ''p'')) (lit ''q'') (lit ''db'')
      (completing (lit ''count(*)  FROM singer /* all */'')) =
    Inr \<lparr>status = SUCCESS, content = lit ''SELECT count(*) FROM singer '' @ [10]\<rparr>"
    by (simp add: fixed_generator_run comment_eval)
  from payload_shape [OF this] show ?thesis by auto
qed

text \<open>
  C9: the function with the three branches is the function with two: no normalised
  completion begins with a space, so the second branch is never taken.
\<close>

theorem three_way_is_two_way:
  "get_response_from_prompt prompt model = get_response_two_way prompt model \<and>
   respond (normalize_completion sql) = respond_two_way (normalize_completion sql) \<and>
   \<not> startswith (normalize_completion sql) (lit '' '')"
  by (simp add: get_response_from_prompt_def get_response_two_way_def respond_cases
      normalize_not_space_first split: sum.splits)

theorem three_way_is_two_way_witness:
  "get_response_from_prompt (lit ''p'') (completing (lit ''  count(*)'')) =
     get_response_two_way (lit ''p'') (completing (lit ''  count(*)'')) \<and>
   \<not> startswith (normalize_completion (lit ''  count(*)'')) (lit '' '')"
  using three_way_is_two_way [of "lit ''p''" "completing (lit ''  count(*)'')" "lit ''  count(*)''"]
  by simp

text \<open>
  C10: when the prompt builder returns its prompt and the model returns a completion,
  whatever its text, the tool returns a response of status SUCCESS that holds the
  normalised completion; no call of the tool returns a response of status FAILURE; and
  the empty completion gives the payload \<open>SELECT\<close>, a space and a newline.
\<close>

theorem always_success:
  assumes "G db_path = Inr gp" and "gp [lit ''content'' \<mapsto> question] = Inr pp"
    and "pp (lit ''prompt'') = Some p"
    and "m [[lit ''role'' \<mapsto> lit ''assistant'', lit ''content'' \<mapsto> p]] = Inr c"
  shows "generate_sql_query G question db_path m =
      Inr \<lparr>status = SUCCESS, content = respond (normalize_completion c)\<rparr> \<and>
    (c = [] \<longrightarrow> generate_sql_query G question db_path m =
      Inr \<lparr>status = SUCCESS, content = lit ''SELECT '' @ [10]\<rparr>) \<and>
    (\<forall>G' question' db_path' m'. \<not> returns_failure (generate_sql_query G' question' db_path' m'))"
proof -
  have "\<not> returns_failure (generate_sql_query G' question' db_path' m')"
    for G' question' db_path' m'
  proof (cases "generate_sql_query G' question' db_path' m'")
    case (Inl e)
    then show ?thesis by simp
  next
    case (Inr r)
    then show ?thesis using generate_sql_query_Inr [OF Inr] by auto
  qed
  then show ?thesis
    using assms generate_sql_query_normal [of G db_path gp question pp p m c]
    by (auto simp: empty_eval)
qed

theorem always_success_witness:
  "generate_sql_query (fixed_generator (lit ''p'')) (lit ''q'') (lit ''db'') (completing []) =
   Inr \<lparr>status = SUCCESS, content = lit ''SELECT '' @ [10]\<rparr>"
proof -
  have "generate_sql_query (fixed_generator (lit ''p'')) (lit ''q'') (lit ''db'') (completing []) =
      Inr \<lparr>status = SUCCESS, content = respond (normalize_completion [])\<rparr> \<and>
    ([] = ([]::str) \<longrightarrow> generate_sql_query (fixed_generator (lit ''p'')) (lit ''q'') (lit ''db'')
        (completing []) = Inr \<lparr>status = SUCCESS, content = lit ''SELECT '' @ [10]\<rparr>) \<and>
    (\<forall>G' question' db_path' m'. \<not> returns_failure (generate_sql_query G' question' db_path' m'))"
    by (rule always_success [where gp = "\<lambda>d. Inr [lit ''prompt'' \<mapsto> lit ''p'']"
          and pp = "[lit ''prompt'' \<mapsto> lit ''p'']" and p = "lit ''p''"])
      (simp_all add: fixed_generator_def completing_def)
  then show ?thesis by blast
qed

section \<open>Properties of the registry\<close>

lemma merge_bound:
  "map_of bound k = Some v \<Longrightarrow> merge_arguments bound supplied k = Some v"
  by (simp add: merge_arguments_def map_add_def)

lemma describe_hides_bound:
  "map_of (bound_arguments d) k = Some v \<Longrightarrow>
     k \<notin> set (map param_name (schema_parameters (describe d)))"
  by (auto simp: describe_def)

lemma prepare_Inr:
  assumes "prepare reg req = Inr (d, args)"
  shows "find (\<lambda>d. name d = tool_name req) reg = Some d \<and>
    validate (schema_parameters (describe d)) (arguments req) = None \<and>
    args = merge_arguments (bound_arguments d) (arguments req)"
  using assms by (auto simp: prepare_def split: option.splits)

text \<open>Every argument of an accepted request is a parameter of the schema it was checked against.\<close>

lemma validate_None_names:
  assumes "validate ps supplied = None" and "k \<in> fst ` set supplied"
  shows "k \<in> set (map param_name ps)"
proof -
  from assms(1) have "find (\<lambda>a. fst a \<notin> set (map param_name ps)) supplied = None"
    by (auto simp: validate_def split: option.splits)
  with assms(2) show ?thesis by (auto simp: find_None_iff)
qed

text \<open>The handler of a prepared request is invoked with the prepared arguments.\<close>

lemma dispatch_prepared:
  assumes "prepare reg req = Inr (d, args)"
  shows "dispatch reg req w =
    (case handler d args w of
       (Inl fault, w') \<Rightarrow> (failed (HandlerFault fault), w')
     | (Inr res, w') \<Rightarrow> (res, w'))"
  using assms by (simp add: dispatch_def)

lemma dispatch_unknown_tool:
  assumes "find (\<lambda>d. name d = tool_name req) reg = None"
  shows "dispatch reg req w = (failed (UnknownToolError (tool_name req)), w)"
  using assms by (simp add: dispatch_def prepare_def)

text \<open>The notebook's two registrations, and what the model is shown of them.\<close>

lemma notebook_registrations:
  "register [] (generate_sql_query_tool h) = Inr [generate_sql_query_tool h] \<and>
   register [generate_sql_query_tool h] (query_sqlite_tool k) = Inr (service_toolkit h k) \<and>
   register (service_toolkit h k) (query_sqlite_tool k) =
     Inl (DuplicateToolError (lit ''query_sqlite''))"
  by (simp add: register_def service_toolkit_def generate_sql_query_tool_def
      query_sqlite_tool_def lit_def)

lemma notebook_schemas:
  "map (\<lambda>s. (schema_name s, map param_name (schema_parameters s)))
     (describe_all (service_toolkit h k)) =
   [(lit ''generate_sql_query'', [lit ''question'']),
    (lit ''query_sqlite'', [lit ''query'', lit ''allow_change_data''])]"
  by (simp add: describe_all_def describe_def service_toolkit_def generate_sql_query_tool_def
      query_sqlite_tool_def lit_def)

lemma notebook_override_refused:
  "prepare (service_toolkit h k)
     \<lparr>tool_name = lit ''generate_sql_query'',
      arguments = [(lit ''question'', VStr (lit ''How many singers do we have?'')),
                   (lit ''db_path'', VStr (lit ''/etc/passwd''))]\<rparr> =
   Inl (UnexpectedArgumentError (lit ''db_path''))"
  by (simp add: prepare_def validate_def describe_def service_toolkit_def
      generate_sql_query_tool_def query_sqlite_tool_def lit_def)

lemma notebook_call_prepared:
  "prepare (service_toolkit h k)
     \<lparr>tool_name = lit ''query_sqlite'',
      arguments = [(lit ''allow_change_data'', VBool False),
                   (lit ''query'', VStr (lit ''SELECT COUNT(DISTINCT Singer_ID) FROM singer;''))]\<rparr> =
   Inr (query_sqlite_tool k,
     merge_arguments [(lit ''database'', VStr db_sqlite_path)]
       [(lit ''allow_change_data'', VBool False),
        (lit ''query'', VStr (lit ''SELECT COUNT(DISTINCT Singer_ID) FROM singer;''))])"
  by (simp add: prepare_def validate_def describe_def service_toolkit_def
      generate_sql_query_tool_def query_sqlite_tool_def lit_def)

section \<open>Properties of the guard\<close>

lemma execute_refused:
  "is_mutating query \<Longrightarrow> \<not> mutation_allowed h \<Longrightarrow>
     execute h query = (failed MutationNotAllowedError, h)"
  by (simp add: execute_def)

text \<open>A statement that is not refused does reach the connection, once.\<close>

lemma execute_reaches_connection:
  "\<not> is_mutating query \<or> mutation_allowed h \<Longrightarrow>
     received (connection (snd (execute h query))) = received (connection h) @ [query]"
  by (auto simp: execute_def split: prod.splits)

lemma drop_is_mutating: "is_mutating (lit ''DROP TABLE singer;'')"
  by (simp add: is_mutating_def leading_keyword_def split_ws_def lit_def isspace_def
      upper_def mutating_keywords_def)

lemma lower_drop_is_mutating: "is_mutating (lit ''  drop table singer;'')"
  by (simp add: is_mutating_def leading_keyword_def split_ws_def lit_def isspace_def
      upper_def mutating_keywords_def)

lemma select_is_not_mutating:
  "\<not> is_mutating (lit ''SELECT COUNT(DISTINCT Singer_ID) FROM singer;'')"
  by (simp add: is_mutating_def leading_keyword_def split_ws_def lit_def isspace_def
      upper_def mutating_keywords_def)

section \<open>Properties of the loop\<close>

lemma run_terminal: "phase t = TERMINATED \<or> phase t = FAILED \<Longrightarrow> run a t = t"
  by (subst run.simps) simp

lemma run_step: "phase t = REASONING \<or> phase t = ACTION \<Longrightarrow> run a t = run a (step a t)"
  by (subst run.simps) auto

lemma within_budget_start: "within_budget a (start conv w)"
  by (simp add: within_budget_def start_def)

lemma within_budget_step:
  assumes "within_budget a t"
  shows "within_budget a (step a t)"
proof (cases "phase t")
  case REASONING
  with assms show ?thesis
    by (auto simp: within_budget_def step_def split: sum.splits)
next
  case ACTION
  with assms show ?thesis
    by (auto simp: within_budget_def step_def split: prod.splits)
next
  case TERMINATED
  with assms show ?thesis by (simp add: step_def)
next
  case FAILED
  with assms show ?thesis by (simp add: step_def)
qed

text \<open>The loop ends in a terminal state, and what holds of every state holds of the last.\<close>

lemma run_within_budget:
  "within_budget a t \<Longrightarrow>
     within_budget a (run a t) \<and> (phase (run a t) = TERMINATED \<or> phase (run a t) = FAILED)"
proof (induction a t rule: run.induct)
  case (1 a t)
  show ?case
  proof (cases "phase t = TERMINATED \<or> phase t = FAILED")
    case True
    with 1 show ?thesis by (simp add: run_terminal)
  next
    case False
    then have "run a t = run a (step a t)" by (cases "phase t") (auto simp: run_step)
    with False 1 show ?thesis by (simp add: within_budget_step)
  qed
qed

text \<open>A turn does not end in TERMINATED when no decision is without calls.\<close>

lemma step_not_terminated:
  assumes "\<forall>raw d. parse a raw = Inr d \<longrightarrow> calls d \<noteq> []" and "phase t \<noteq> TERMINATED"
  shows "phase (step a t) \<noteq> TERMINATED"
  using assms by (cases "phase t") (auto simp: step_def split: sum.splits prod.splits)

lemma run_not_terminated:
  "\<forall>raw d. parse a raw = Inr d \<longrightarrow> calls d \<noteq> [] \<Longrightarrow> phase t \<noteq> TERMINATED \<Longrightarrow>
     phase (run a t) \<noteq> TERMINATED"
proof (induction a t rule: run.induct)
  case (1 a t)
  show ?case
  proof (cases "phase t = TERMINATED \<or> phase t = FAILED")
    case True
    with 1 show ?thesis by (simp add: run_terminal)
  next
    case False
    then have "run a t = run a (step a t)" by (cases "phase t") (auto simp: run_step)
    moreover have "phase (step a t) \<noteq> TERMINATED"
      using "1.prems" by (rule step_not_terminated)
    ultimately show ?thesis using False "1.IH" "1.prems" by simp
  qed
qed

text \<open>
  A run with a budget of two iterations of the agent that always asks for a tool: two
  iterations are performed, and the third REASONING phase ends the turn.
\<close>

lemma insisting_run:
  "trace (run (insisting 2) (start [user_question] ())) =
     [REASONING, ACTION, REASONING, ACTION, REASONING] \<and>
   failure (run (insisting 2) (start [user_question] ())) = Some (BudgetExhaustedError Iterations)"
  by (simp add: run_step run_terminal step_def start_def insisting_def build_prompt_def
      describe_all_def dispatch_unknown_tool)

section \<open>The claims about the registry, the guard and the loop\<close>

text \<open>
  C4: a statement classified as mutating, given to the guard with the permission flag
  false, is answered by FAILURE with the policy violation \<open>MutationNotAllowedError\<close>,
  and the handle comes back as it was: nothing has reached the connection, so a
  connection that had received no statement has still received none.
\<close>

theorem mutation_guard:
  assumes "is_mutating query" and "\<not> mutation_allowed h"
  shows "exec_status (fst (execute h query)) = FAILURE \<and>
    error_detail (fst (execute h query)) = Some MutationNotAllowedError \<and>
    snd (execute h query) = h \<and>
    received (connection (snd (execute h query))) = received (connection h) \<and>
    (received (connection h) = [] \<longrightarrow>
       length (received (connection (snd (execute h query)))) = 0)"
  using assms by (simp add: execute_refused failed_def)

theorem mutation_guard_witness:
  "exec_status (fst (execute fixture (lit ''DROP TABLE singer;''))) = FAILURE \<and>
   error_detail (fst (execute fixture (lit ''DROP TABLE singer;''))) =
     Some MutationNotAllowedError \<and>
   length (received (connection (snd (execute fixture (lit ''DROP TABLE singer;''))))) = 0 \<and>
   database (connection (snd (execute fixture (lit ''DROP TABLE singer;'')))) =
     [lit ''stadium'', lit ''singer''] \<and>
   snd (execute fixture (lit ''  drop table singer;'')) = fixture \<and>
   length (received (connection (snd (execute fixture
     (lit ''SELECT COUNT(DISTINCT Singer_ID) FROM singer;''))))) = 1"
proof -
  have f: "\<not> mutation_allowed fixture" by (simp add: fixture_def)
  have "received (connection (snd (execute fixture
      (lit ''SELECT COUNT(DISTINCT Singer_ID) FROM singer;'')))) =
    received (connection fixture) @ [lit ''SELECT COUNT(DISTINCT Singer_ID) FROM singer;'']"
    using select_is_not_mutating by (intro execute_reaches_connection) simp
  then have "length (received (connection (snd (execute fixture
      (lit ''SELECT COUNT(DISTINCT Singer_ID) FROM singer;''))))) = 1"
    by (simp add: fixture_def)
  with mutation_guard [OF drop_is_mutating f] mutation_guard [OF lower_drop_is_mutating f]
  show ?thesis by (simp add: fixture_def)
qed

text \<open>
  C5: for every descriptor and every argument it binds, whatever arguments the model
  supplies, the merged arguments give the bound argument its bound value, and the bound
  argument is not among the parameters of the schema shown to the model; and for every
  dispatched request, the handler is invoked with these merged arguments, so it sees the
  bound value, and the request supplies no argument of the bound name.
\<close>

theorem bound_arguments_protected:
  assumes "map_of (bound_arguments d) k = Some v"
  shows "merge_arguments (bound_arguments d) supplied k = Some v \<and>
    k \<notin> set (map param_name (schema_parameters (describe d))) \<and>
    (prepare reg req = Inr (d, args) \<longrightarrow>
       args k = Some v \<and> k \<notin> fst ` set (arguments req) \<and>
       dispatch reg req w =
         (case handler d args w of
            (Inl fault, w') \<Rightarrow> (failed (HandlerFault fault), w')
          | (Inr res, w') \<Rightarrow> (res, w')))"
proof -
  have 1: "merge_arguments (bound_arguments d) supplied k = Some v"
    using assms by (rule merge_bound)
  have 2: "k \<notin> set (map param_name (schema_parameters (describe d)))"
    using assms by (rule describe_hides_bound)
  have 3: "args k = Some v \<and> k \<notin> fst ` set (arguments req) \<and>
      dispatch reg req w =
        (case handler d args w of
           (Inl fault, w') \<Rightarrow> (failed (HandlerFault fault), w')
         | (Inr res, w') \<Rightarrow> (res, w'))"
    if p: "prepare reg req = Inr (d, args)"
  proof -
    from prepare_Inr [OF p]
    have v: "validate (schema_parameters (describe d)) (arguments req) = None"
      and a: "args = merge_arguments (bound_arguments d) (arguments req)" by simp_all
    from a assms have "args k = Some v" by (simp add: merge_bound)
    moreover from v 2 have "k \<notin> fst ` set (arguments req)"
      using validate_None_names by blast
    ultimately show ?thesis using dispatch_prepared [OF p] by simp
  qed
  from 1 2 3 show ?thesis by blast
qed

theorem bound_arguments_protected_witness:
  "merge_arguments (bound_arguments (generate_sql_query_tool idle_handler))
     [(lit ''question'', VStr (lit ''How many singers do we have?'')),
      (lit ''db_path'', VStr (lit ''/etc/passwd''))] (lit ''db_path'') =
     Some (VStr db_sqlite_path) \<and>
   lit ''db_path'' \<notin> set (map param_name
     (schema_parameters (describe (generate_sql_query_tool idle_handler)))) \<and>
   merge_arguments [(lit ''database'', VStr db_sqlite_path)]
     [(lit ''allow_change_data'', VBool False),
      (lit ''query'', VStr (lit ''SELECT COUNT(DISTINCT Singer_ID) FROM singer;''))]
     (lit ''database'') = Some (VStr db_sqlite_path) \<and>
   map (\<lambda>s. (schema_name s, map param_name (schema_parameters s)))
     (describe_all (service_toolkit idle_handler idle_handler)) =
     [(lit ''generate_sql_query'', [lit ''question'']),
      (lit ''query_sqlite'', [lit ''query'', lit ''allow_change_data''])] \<and>
   register [generate_sql_query_tool idle_handler] (query_sqlite_tool idle_handler) =
     Inr (service_toolkit idle_handler idle_handler) \<and>
   prepare (service_toolkit idle_handler idle_handler)
     \<lparr>tool_name = lit ''generate_sql_query'',
      arguments = [(lit ''question'', VStr (lit ''How many singers do we have?'')),
                   (lit ''db_path'', VStr (lit ''/etc/passwd''))]\<rparr> =
     Inl (UnexpectedArgumentError (lit ''db_path''))"
proof -
  have g: "map_of (bound_arguments (generate_sql_query_tool idle_handler)) (lit ''db_path'') =
    Some (VStr db_sqlite_path)"
    by (simp add: generate_sql_query_tool_def)
  have q: "map_of (bound_arguments (query_sqlite_tool idle_handler)) (lit ''database'') =
    Some (VStr db_sqlite_path)"
    by (simp add: query_sqlite_tool_def)
  note c1 = bound_arguments_protected [OF g, THEN conjunct1]
  note c2 = bound_arguments_protected [OF g, THEN conjunct2, THEN conjunct1]
  have c3: "merge_arguments [(lit ''database'', VStr db_sqlite_path)]
     [(lit ''allow_change_data'', VBool False),
      (lit ''query'', VStr (lit ''SELECT COUNT(DISTINCT Singer_ID) FROM singer;''))]
     (lit ''database'') = Some (VStr db_sqlite_path)"
    using bound_arguments_protected [OF q, THEN conjunct2, THEN conjunct2, THEN mp,
        OF notebook_call_prepared, THEN conjunct1] .
  note c4 = notebook_schemas [of idle_handler idle_handler]
  note c5 = notebook_registrations [of idle_handler idle_handler, THEN conjunct2, THEN conjunct1]
  note c6 = notebook_override_refused [of idle_handler idle_handler]
  show ?thesis
    by (intro conjI) (rule c1, rule c2, rule c3, rule c4, rule c5, rule c6)
qed

text \<open>
  C6: when the first text of the model parses to a decision without calls, the turn ends
  in TERMINATED after the one REASONING phase and no ACTION phase, and the decision's
  \<open>speak\<close> is the final assistant message, the last of the conversation.
\<close>

theorem empty_calls_terminate:
  assumes "parse a (invoke a (build_prompt a conv)) = Inr d" and "calls d = []"
  shows "phase (run a (start conv w)) = TERMINATED \<and>
    trace (run a (start conv w)) = [REASONING] \<and>
    final_message (run a (start conv w)) = Some (speak d) \<and>
    conversation (run a (start conv w)) =
      conv @ [\<lparr>msg_role = Assistant, msg_name = agent_name a, msg_content = Plain (speak d)\<rparr>]"
proof -
  have "run a (start conv w) = run a (step a (start conv w))"
    by (rule run_step) (simp add: start_def)
  moreover have "phase (step a (start conv w)) = TERMINATED"
    using assms by (simp add: step_def start_def)
  ultimately have "run a (start conv w) = step a (start conv w)"
    by (simp add: run_terminal)
  with assms show ?thesis by (simp add: step_def start_def)
qed

theorem empty_calls_terminate_witness:
  "phase (run (answering 0) (start [user_question] ())) = TERMINATED \<and>
   trace (run (answering 0) (start [user_question] ())) = [REASONING] \<and>
   final_message (run (answering 0) (start [user_question] ())) = Some (lit ''6'')"
proof -
  have "parse (answering 0) (invoke (answering 0) (build_prompt (answering 0) [user_question])) =
    Inr \<lparr>thought = [], speak = lit ''6'', calls = []\<rparr>"
    by (simp add: answering_def)
  from empty_calls_terminate [OF this, of "()"] show ?thesis by simp
qed

text \<open>
  C7: for every model, parser and registry the loop ends, in TERMINATED or in FAILED; it
  performs at most \<open>max_iterations\<close> ACTION phases, one for each iteration, and a number of
  phases bounded by the two budgets; a turn that ends in FAILED says that a budget was
  exhausted; and when no decision is ever without calls the turn ends in FAILED.
\<close>

theorem loop_bounded:
  "(phase (run a (start conv w)) = TERMINATED \<or> phase (run a (start conv w)) = FAILED) \<and>
   count_list (trace (run a (start conv w))) ACTION \<le> max_iterations a \<and>
   length (trace (run a (start conv w))) \<le> 2 * max_iterations a + max (max_parse_retries a) 1 \<and>
   (phase (run a (start conv w)) = FAILED \<longrightarrow>
      failure (run a (start conv w)) = Some (BudgetExhaustedError Iterations) \<or>
      failure (run a (start conv w)) = Some (BudgetExhaustedError ParseRetries)) \<and>
   ((\<forall>raw d. parse a raw = Inr d \<longrightarrow> calls d \<noteq> []) \<longrightarrow> phase (run a (start conv w)) = FAILED)"
proof -
  let ?t = "run a (start conv w)"
  have b: "within_budget a ?t" and e: "phase ?t = TERMINATED \<or> phase ?t = FAILED"
    using run_within_budget [OF within_budget_start, of a conv w] by simp_all
  from b e have 1: "count_list (trace ?t) ACTION \<le> max_iterations a"
    by (auto simp: within_budget_def)
  from b e have 2: "length (trace ?t) \<le> 2 * max_iterations a + max (max_parse_retries a) 1"
    by (auto simp: within_budget_def)
  from b have 3: "phase ?t = FAILED \<longrightarrow>
      failure ?t = Some (BudgetExhaustedError Iterations) \<or>
      failure ?t = Some (BudgetExhaustedError ParseRetries)"
    by (auto simp: within_budget_def)
  have 4: "phase ?t = FAILED" if "\<forall>raw d. parse a raw = Inr d \<longrightarrow> calls d \<noteq> []"
  proof -
    have "phase (start conv w) \<noteq> TERMINATED" by (simp add: start_def)
    with that have "phase ?t \<noteq> TERMINATED" by (rule run_not_terminated)
    with e show ?thesis by simp
  qed
  from e 1 2 3 4 show ?thesis by blast
qed

theorem loop_bounded_witness:
  "phase (run (insisting 2) (start [user_question] ())) = FAILED \<and>
   count_list (trace (run (insisting 2) (start [user_question] ()))) ACTION = 2 \<and>
   trace (run (insisting 2) (start [user_question] ())) =
     [REASONING, ACTION, REASONING, ACTION, REASONING] \<and>
   failure (run (insisting 2) (start [user_question] ())) = Some (BudgetExhaustedError Iterations)"
proof -
  have "\<forall>raw d. parse (insisting 2) raw = Inr d \<longrightarrow> calls d \<noteq> []"
    by (auto simp: insisting_def)
  with loop_bounded [of "insisting 2" "[user_question]" "()"]
  have "phase (run (insisting 2) (start [user_question] ())) = FAILED" by blast
  with insisting_run show ?thesis by simp
qed

end
